theory Spec2Isabelle
  imports Main "HOL-Library.Word"
begin

unbundle bit_operations_syntax

section \<open>The feedback service of \<open>app.py\<close>\<close>

text \<open>
  The two handlers \<open>send_invite\<close> and \<open>submit_feedback\<close> of \<open>app.py\<close> are embedded as
  functions from the parsed request body and the state of the database to a result and
  the new state. An exception that leaves a handler is the value \<open>Inl\<close> of the result.
  What the handlers call outside the file is either modelled after the library
  (\<open>uuid.UUID\<close>, \<open>uuid.uuid4\<close>, \<open>str.replace\<close>, \<open>str.strip\<close>, \<open>int(s, 16)\<close>) or a
  field of the environment (the random bytes, the mail transport, the address
  validator, the variable \<open>BASE_URL\<close>).
  A Python string is a list of characters with code points below 256. The request body
  is the value that \<open>request.get_json()\<close> has returned.
\<close>

subsection \<open>Request bodies and Python's operations on them\<close>

text \<open>
  The value \<open>request.get_json()\<close> returns: \<open>JNull\<close> is \<open>None\<close>, a \<open>dict\<close> is the list of
  its items in insertion order (its keys are distinct). A number is kept as an integer:
  the handlers only test it for zero and for its type.
\<close>

datatype json =
    JNull
  | JBool bool
  | JNum int
  | JStr string
  | JArr "json list"
  | JObj "(string \<times> json) list"

datatype exn =
    TypeError
  | AttributeError
  | KeyError
  | IntegrityError
  | InterfaceError

fun startswith :: "string \<Rightarrow> string \<Rightarrow> bool" where
  "startswith s [] = True"
| "startswith [] (p # ps) = False"
| "startswith (c # cs) (p # ps) = (c = p \<and> startswith cs ps)"

fun str_contains :: "string \<Rightarrow> string \<Rightarrow> bool" where
  "str_contains [] p = (p = [])"
| "str_contains (c # cs) p = (startswith (c # cs) p \<or> str_contains cs p)"

text \<open>\<open>key in data\<close>.\<close>

fun py_in :: "string \<Rightarrow> json \<Rightarrow> exn + bool" where
  "py_in key (JObj items) = Inr (key \<in> set (map fst items))"
| "py_in key (JArr xs) = Inr (JStr key \<in> set xs)"
| "py_in key (JStr s) = Inr (str_contains s key)"
| "py_in key JNull = Inl TypeError"
| "py_in key (JBool b) = Inl TypeError"
| "py_in key (JNum n) = Inl TypeError"

text \<open>\<open>data[key]\<close> for a string \<open>key\<close>.\<close>

fun py_getitem :: "json \<Rightarrow> string \<Rightarrow> exn + json" where
  "py_getitem (JObj items) key =
     (case map_of items key of None \<Rightarrow> Inl KeyError | Some v \<Rightarrow> Inr v)"
| "py_getitem (JArr xs) key = Inl TypeError"
| "py_getitem (JStr s) key = Inl TypeError"
| "py_getitem JNull key = Inl TypeError"
| "py_getitem (JBool b) key = Inl TypeError"
| "py_getitem (JNum n) key = Inl TypeError"

text \<open>The truth value of \<open>not x\<close> is \<open>\<not> py_bool x\<close>.\<close>

fun py_bool :: "json \<Rightarrow> bool" where
  "py_bool JNull = False"
| "py_bool (JBool b) = b"
| "py_bool (JNum n) = (n \<noteq> 0)"
| "py_bool (JStr s) = (s \<noteq> [])"
| "py_bool (JArr xs) = (xs \<noteq> [])"
| "py_bool (JObj items) = (items \<noteq> [])"

text \<open>The elements a \<open>for\<close> loop or \<open>all(...)\<close> draws from a value.\<close>

fun py_iter :: "json \<Rightarrow> exn + json list" where
  "py_iter (JArr xs) = Inr xs"
| "py_iter (JStr s) = Inr (map (\<lambda>c. JStr [c]) s)"
| "py_iter (JObj items) = Inr (map (\<lambda>kv. JStr (fst kv)) items)"
| "py_iter JNull = Inl TypeError"
| "py_iter (JBool b) = Inl TypeError"
| "py_iter (JNum n) = Inl TypeError"

fun isinstance_str :: "json \<Rightarrow> bool" where
  "isinstance_str (JStr s) = True"
| "isinstance_str j = False"

fun the_strs :: "json list \<Rightarrow> string list" where
  "the_strs [] = []"
| "the_strs (JStr s # js) = s # the_strs js"
| "the_strs (j # js) = the_strs js"

subsection \<open>The library's \<open>uuid.UUID\<close>\<close>

text \<open>\<open>s.replace(old, '')\<close>: the occurrences of \<open>old\<close> are removed from left to right.\<close>

fun remove_all :: "string \<Rightarrow> string \<Rightarrow> string" where
  "remove_all old [] = []"
| "remove_all old (c # cs) =
     (if old \<noteq> [] \<and> startswith (c # cs) old
      then remove_all old (drop (length old) (c # cs))
      else c # remove_all old cs)"

text \<open>\<open>s.strip(chars)\<close>.\<close>

definition strip :: "string \<Rightarrow> string \<Rightarrow> string" where
  "strip chars s =
     rev (dropWhile (\<lambda>c. c \<in> set chars) (rev (dropWhile (\<lambda>c. c \<in> set chars) s)))"

text \<open>
  \<open>int(s, 16)\<close>: white space, an optional sign, an optional prefix \<open>0x\<close> (after which one
  underscore may stand), hexadecimal digits with single underscores between them, white
  space. \<open>None\<close> stands for the \<open>ValueError\<close>.
\<close>

definition digit16 :: "char \<Rightarrow> int option" where
  "digit16 c =
     (let n = (of_char c :: nat) in
      if 48 \<le> n \<and> n \<le> 57 then Some (int n - 48)
      else if 97 \<le> n \<and> n \<le> 102 then Some (int n - 87)
      else if 65 \<le> n \<and> n \<le> 70 then Some (int n - 55)
      else None)"

definition isspace :: "char \<Rightarrow> bool" where
  "isspace c =
     (let n = (of_char c :: nat) in (9 \<le> n \<and> n \<le> 13) \<or> n = 32 \<or> n = 133 \<or> n = 160)"

fun scan_digits :: "bool \<Rightarrow> int \<Rightarrow> string \<Rightarrow> (int \<times> string) option" where
  "scan_digits prev_underscore acc [] =
     (if prev_underscore then None else Some (acc, []))"
| "scan_digits prev_underscore acc (c # cs) =
     (if c = CHR ''_'' then
        (if prev_underscore then None else scan_digits True acc cs)
      else
        (case digit16 c of
           Some d \<Rightarrow> scan_digits False (16 * acc + d) cs
         | None \<Rightarrow> (if prev_underscore then None else Some (acc, c # cs))))"

definition skip_prefix16 :: "string \<Rightarrow> string" where
  "skip_prefix16 s =
     (case s of
        c0 # c1 # rest \<Rightarrow>
          (if c0 = CHR ''0'' \<and> (c1 = CHR ''x'' \<or> c1 = CHR ''X'')
           then (case rest of c2 # rest' \<Rightarrow> (if c2 = CHR ''_'' then rest' else rest)
                            | [] \<Rightarrow> rest)
           else s)
      | _ \<Rightarrow> s)"

definition int16 :: "string \<Rightarrow> int option" where
  "int16 s =
     (let s1 = dropWhile isspace s;
          (sign, s2) = (case s1 of
                          c # cs \<Rightarrow> (if c = CHR ''+'' then (1, cs)
                                     else if c = CHR ''-'' then (- 1, cs)
                                     else (1, s1))
                        | [] \<Rightarrow> (1, s1));
          s3 = skip_prefix16 s2
      in if startswith s3 ''_'' then None
         else (case scan_digits False 0 s3 of
                 None \<Rightarrow> None
               | Some (v, rest) \<Rightarrow>
                   (if length rest = length s3 then None
                    else if dropWhile isspace rest \<noteq> [] then None
                    else Some (sign * v))))"

text \<open>
  \<open>UUID(hex, version=version)\<close>, the value of its field \<open>int\<close>. The version is not
  compared with the text: it overwrites four bits of the number read.
\<close>

datatype uuid_error = BadValue | Raised exn

definition set_version :: "int \<Rightarrow> int \<Rightarrow> int" where
  "set_version i version =
     (let i1 = i AND NOT (push_bit 48 0xc000);
          i2 = i1 OR push_bit 48 0x8000;
          i3 = i2 AND NOT (push_bit 64 0xf000)
      in i3 OR push_bit 76 version)"

definition UUID :: "json \<Rightarrow> int option \<Rightarrow> uuid_error + int" where
  "UUID hex version =
     (case hex of
        JNull \<Rightarrow> Inl (Raised TypeError)
      | JStr s \<Rightarrow>
          (let h = remove_all ''-'' (strip ''{}''
                     (remove_all ''uuid:'' (remove_all ''urn:'' s)))
           in if length h \<noteq> 32 then Inl BadValue
              else (case int16 h of
                      None \<Rightarrow> Inl BadValue
                    | Some i \<Rightarrow>
                        (if \<not> (0 \<le> i \<and> i < 2 ^ 128) then Inl BadValue
                         else (case version of
                                 None \<Rightarrow> Inr i
                               | Some v \<Rightarrow>
                                   (if \<not> (1 \<le> v \<and> v \<le> 5) then Inl BadValue
                                    else Inr (set_version i v))))))
      | _ \<Rightarrow> Inl (Raised AttributeError))"

text \<open>\<open>str(uuid.uuid4())\<close> for the sixteen random bytes \<open>rnd\<close>.\<close>

definition hexchar :: "int \<Rightarrow> char" where
  "hexchar d = (if d < 10 then char_of (48 + d) else char_of (87 + d))"

fun hex_digits :: "nat \<Rightarrow> int \<Rightarrow> string" where
  "hex_digits 0 i = []"
| "hex_digits (Suc k) i = hex_digits k (i div 16) @ [hexchar (i mod 16)]"

definition str_of_uuid :: "int \<Rightarrow> string" where
  "str_of_uuid i =
     (let hex = hex_digits 32 i
      in take 8 hex @ ''-'' @ take 4 (drop 8 hex) @ ''-'' @ take 4 (drop 12 hex) @ ''-''
         @ take 4 (drop 16 hex) @ ''-'' @ drop 20 hex)"

definition uuid4 :: "128 word \<Rightarrow> int" where
  "uuid4 rnd = set_version (uint rnd) 4"

subsection \<open>\<open>is_valid_uuid\<close>\<close>

definition is_valid_uuid :: "json \<Rightarrow> exn + bool" where
  "is_valid_uuid uuid_str =
     (case UUID uuid_str (Some 4) of
        Inr u \<Rightarrow> Inr True
      | Inl BadValue \<Rightarrow> Inr False
      | Inl (Raised e) \<Rightarrow> Inl e)"

subsection \<open>The tables and the environment\<close>

text \<open>
  A row of \<open>Feedback\<close> (columns \<open>id\<close>, \<open>email\<close>, \<open>submitted\<close>) and a row of \<open>UserFeedback\<close>
  (columns \<open>id\<close>, \<open>email\<close>, \<open>feedback\<close>); the fields carry a prefix since \<open>id\<close> is a
  constant of HOL and both tables have the same column names.
\<close>

record feedback_row =
  fb_id :: string
  fb_email :: string
  submitted :: bool

record user_feedback_row =
  uf_id :: string
  uf_email :: string
  uf_feedback :: json

text \<open>
  The committed state: both tables in insertion order, and how many times
  \<open>os.urandom(16)\<close> has been read.
\<close>

record world =
  Feedback :: "feedback_row list"
  UserFeedback :: "user_feedback_row list"
  drawn :: nat

record message =
  subject :: string
  recipients :: "string list"
  body :: string

text \<open>
  \<open>mail_send\<close> gives \<open>Some text\<close> when \<open>mail.send\<close> raises an exception with that text;
  \<open>BASE_URL\<close> is \<open>None\<close> when the variable is not set.
\<close>

record env =
  urandom :: "nat \<Rightarrow> 128 word"
  mail_send :: "message \<Rightarrow> string option"
  validate_email :: "string \<Rightarrow> bool"
  BASE_URL :: "string option"

text \<open>\<open>Feedback.query.filter_by(email=email).first()\<close> and the same by \<open>id\<close>.\<close>

definition first_by_email :: "feedback_row list \<Rightarrow> string \<Rightarrow> feedback_row option" where
  "first_by_email rows email = find (\<lambda>r. fb_email r = email) rows"

definition first_by_id :: "feedback_row list \<Rightarrow> string \<Rightarrow> feedback_row option" where
  "first_by_id rows ident = find (\<lambda>r. fb_id r = ident) rows"

text \<open>
  \<open>db.session.add(feedback); db.session.commit()\<close>: the primary key refuses a second
  row with the same \<open>id\<close>, and nothing is written then.
\<close>

definition commit_feedback :: "feedback_row \<Rightarrow> world \<Rightarrow> exn + world" where
  "commit_feedback row w =
     (if fb_id row \<in> set (map fb_id (Feedback w)) then Inl IntegrityError
      else Inr (w\<lparr>Feedback := Feedback w @ [row]\<rparr>))"

text \<open>
  The one commit of \<open>submit_feedback\<close>: the new row of \<open>UserFeedback\<close> and the flag of the
  row of \<open>Feedback\<close> with this \<open>id\<close>, both or neither. The column \<open>feedback\<close> is not
  nullable, and a list or a dict cannot be bound to it; the row keeps the value that was
  bound.
\<close>

definition mark_submitted :: "string \<Rightarrow> feedback_row list \<Rightarrow> feedback_row list" where
  "mark_submitted ident rows =
     map (\<lambda>f. if fb_id f = ident then f\<lparr>submitted := True\<rparr> else f) rows"

definition commit_user_feedback :: "user_feedback_row \<Rightarrow> world \<Rightarrow> exn + world" where
  "commit_user_feedback row w =
     (case uf_feedback row of
        JNull \<Rightarrow> Inl IntegrityError
      | JArr xs \<Rightarrow> Inl InterfaceError
      | JObj items \<Rightarrow> Inl InterfaceError
      | _ \<Rightarrow>
          (if uf_id row \<in> set (map uf_id (UserFeedback w)) then Inl IntegrityError
           else Inr (w\<lparr>UserFeedback := UserFeedback w @ [row],
                       Feedback := mark_submitted (uf_id row) (Feedback w)\<rparr>)))"

subsection \<open>Responses\<close>

text \<open>\<open>jsonify(message=...)\<close> and \<open>jsonify(success=..., error=...)\<close>, with the status.\<close>

datatype payload =
    Msg string
  | Report (success: "string list") (error: "string list")

type_synonym response = "payload \<times> nat"

definition quote :: string where
  "quote = [char_of (39 :: nat)]"

definition already_invited :: "string \<Rightarrow> string" where
  "already_invited email = ''Email '' @ quote @ email @ quote @ '' already invited!''"

definition sent_ok :: "string \<Rightarrow> string" where
  "sent_ok email = ''Invite sent successfully to '' @ email"

definition send_failed :: "string \<Rightarrow> string \<Rightarrow> string" where
  "send_failed email e = ''Error sending invite to '' @ email @ '': '' @ e"

definition not_found :: "string \<Rightarrow> string" where
  "not_found uuid_value = ''UUID '' @ quote @ uuid_value @ quote @ '' not found.''"

definition invitation :: "env \<Rightarrow> string \<Rightarrow> string \<Rightarrow> message" where
  "invitation e email feedback_id =
     \<lparr>subject = ''Feedback Invitation'', recipients = [email],
      body = ''Click the following link to provide anonymous feedback: ''
             @ (case BASE_URL e of None \<Rightarrow> ''None'' | Some b \<Rightarrow> b)
             @ ''/feedback/'' @ feedback_id\<rparr>"

subsection \<open>\<open>send_invite\<close>\<close>

text \<open>The loop \<open>for email in emails\<close>, with both message lists and the state.\<close>

fun for_emails ::
  "env \<Rightarrow> string list \<Rightarrow> string list \<Rightarrow> string list \<Rightarrow> world
     \<Rightarrow> (exn + string list \<times> string list) \<times> world" where
  "for_emails e [] success_messages error_messages w =
     (Inr (success_messages, error_messages), w)"
| "for_emails e (email # rest) success_messages error_messages w =
     (if first_by_email (Feedback w) email \<noteq> None
      then for_emails e rest success_messages
             (error_messages @ [already_invited email]) w
      else
        (let feedback_id = str_of_uuid (uuid4 (urandom e (drawn w)));
             w1 = w\<lparr>drawn := Suc (drawn w)\<rparr>
         in case commit_feedback
                   \<lparr>fb_id = feedback_id, fb_email = email, submitted = False\<rparr> w1 of
              Inl ex \<Rightarrow> (Inl ex, w1)
            | Inr w2 \<Rightarrow>
                (case mail_send e (invitation e email feedback_id) of
                   None \<Rightarrow> for_emails e rest (success_messages @ [sent_ok email])
                             error_messages w2
                 | Some err \<Rightarrow> for_emails e rest success_messages
                                 (error_messages @ [send_failed email err]) w2)))"

definition send_invite :: "env \<Rightarrow> json \<Rightarrow> world \<Rightarrow> (exn + response) \<times> world" where
  "send_invite e data w =
     (case py_in ''emails'' data of
        Inl ex \<Rightarrow> (Inl ex, w)
      | Inr False \<Rightarrow>
          (Inr (Msg ''No 'emails' key found in the JSON payload.'', 400), w)
      | Inr True \<Rightarrow>
          (case py_getitem data ''emails'' of
             Inl ex \<Rightarrow> (Inl ex, w)
           | Inr emails \<Rightarrow>
               (if \<not> py_bool emails
                then (Inr (Msg ''Invalid or empty email array.'', 400), w)
                else
                  (case py_iter emails of
                     Inl ex \<Rightarrow> (Inl ex, w)
                   | Inr xs \<Rightarrow>
                       (if \<not> list_all isinstance_str xs
                        then (Inr (Msg ''Invalid or empty email array.'', 400), w)
                        else
                          (case for_emails e (the_strs xs) [] [] w of
                             (Inl ex, w') \<Rightarrow> (Inl ex, w')
                           | (Inr (s, er), w') \<Rightarrow> (Inr (Report s er, 200), w')))))))"

subsection \<open>\<open>submit_feedback\<close>\<close>

text \<open>
  \<open>is_valid_uuid\<close> answers \<open>True\<close> for strings only, so \<open>uuid_value\<close> is a string when the
  query is made; the last case of the match below is never taken.
\<close>

definition submit_feedback :: "env \<Rightarrow> json \<Rightarrow> world \<Rightarrow> (exn + response) \<times> world" where
  "submit_feedback e data w =
     (case py_in ''uuid'' data of
        Inl ex \<Rightarrow> (Inl ex, w)
      | Inr False \<Rightarrow>
          (Inr (Msg ''Invalid or missing 'uuid' or 'feedback' in the JSON payload.'', 400), w)
      | Inr True \<Rightarrow>
     (case py_in ''feedback'' data of
        Inl ex \<Rightarrow> (Inl ex, w)
      | Inr False \<Rightarrow>
          (Inr (Msg ''Invalid or missing 'uuid' or 'feedback' in the JSON payload.'', 400), w)
      | Inr True \<Rightarrow>
     (case py_getitem data ''uuid'' of
        Inl ex \<Rightarrow> (Inl ex, w)
      | Inr uuid_value \<Rightarrow>
     (case py_getitem data ''feedback'' of
        Inl ex \<Rightarrow> (Inl ex, w)
      | Inr feedback_text \<Rightarrow>
     (case is_valid_uuid uuid_value of
        Inl ex \<Rightarrow> (Inl ex, w)
      | Inr False \<Rightarrow> (Inr (Msg ''Invalid UUID format.'', 400), w)
      | Inr True \<Rightarrow>
     (case uuid_value of
        JStr ident \<Rightarrow>
          (case first_by_id (Feedback w) ident of
             None \<Rightarrow> (Inr (Msg (not_found ident), 404), w)
           | Some feedback_entry \<Rightarrow>
               (if submitted feedback_entry
                then (Inr (Msg ''Feedback already submitted for this UUID.'', 400), w)
                else if \<not> validate_email e (fb_email feedback_entry)
                then (Inr (Msg ''Invalid email address.'', 400), w)
                else
                  (case commit_user_feedback
                          \<lparr>uf_id = ident, uf_email = fb_email feedback_entry,
                           uf_feedback = feedback_text\<rparr> w of
                     Inl ex \<Rightarrow> (Inl ex, w)
                   | Inr w' \<Rightarrow> (Inr (Msg ''Feedback submitted successfully!'', 200), w'))))
      | _ \<Rightarrow> (Inl TypeError, w)))))))"

subsection \<open>Sample environment and states for closed instances\<close>

text \<open>
  A transport that delivers everything, random bytes that count upwards, and a stand-in
  for the address validator that only looks for the sign \<open>@\<close>; the instances below use
  it on \<open>a@x.com\<close>, which the library's validator accepts as well.
\<close>

definition sample_env :: env where
  "sample_env =
     \<lparr>urandom = (\<lambda>n. of_nat n), mail_send = (\<lambda>m. None),
      validate_email = (\<lambda>s. CHR ''@'' \<in> set s),
      BASE_URL = Some ''http://localhost:5000''\<rparr>"

text \<open>The same environment with a transport that refuses every message.\<close>

definition offline_env :: env where
  "offline_env = sample_env\<lparr>mail_send := (\<lambda>m. Some ''Connection refused'')\<rparr>"

text \<open>The tables after \<open>db.create_all()\<close>.\<close>

definition empty_world :: world where
  "empty_world = \<lparr>Feedback = [], UserFeedback = [], drawn = 0\<rparr>"

text \<open>The state after \<open>a@x.com\<close> has been invited, and after the feedback \<open>great\<close>.\<close>

definition invited_world :: world where
  "invited_world =
     \<lparr>Feedback = [\<lparr>fb_id = ''00000000-0000-4000-8000-000000000000'',
                    fb_email = ''a@x.com'', submitted = False\<rparr>],
      UserFeedback = [], drawn = 1\<rparr>"

definition redeemed_world :: world where
  "redeemed_world =
     \<lparr>Feedback = [\<lparr>fb_id = ''00000000-0000-4000-8000-000000000000'',
                    fb_email = ''a@x.com'', submitted = True\<rparr>],
      UserFeedback = [\<lparr>uf_id = ''00000000-0000-4000-8000-000000000000'',
                        uf_email = ''a@x.com'', uf_feedback = JStr ''great''\<rparr>],
      drawn = 1\<rparr>"

text \<open>The request body \<open>{"emails": [...]}\<close> for a list of strings.\<close>

definition invite_request :: "string list \<Rightarrow> json" where
  "invite_request emails = JObj [(''emails'', JArr (map JStr emails))]"

subsection \<open>The states the service can reach\<close>

text \<open>
  From the empty tables, by any sequence of calls of the two handlers with any request
  bodies; a call that raises keeps what it has committed before.
\<close>

inductive reachable :: "env \<Rightarrow> world \<Rightarrow> bool" for e :: env where
  init: "reachable e empty_world"
| invite: "reachable e w \<Longrightarrow> reachable e (snd (send_invite e data w))"
| submit: "reachable e w \<Longrightarrow> reachable e (snd (submit_feedback e data w))"

text \<open>
  The identifiers that have a row in \<open>UserFeedback\<close>, and the identifiers of the rows of
  \<open>Feedback\<close> whose flag \<open>submitted\<close> is set.
\<close>

definition record_ids :: "world \<Rightarrow> string set" where
  "record_ids w = set (map uf_id (UserFeedback w))"

definition redeemed_ids :: "world \<Rightarrow> string set" where
  "redeemed_ids w = set (map fb_id (filter submitted (Feedback w)))"

section \<open>Properties\<close>

subsection \<open>Reading the request\<close>

lemma py_getitem_py_in: "py_getitem data key = Inr v \<Longrightarrow> py_in key data = Inr True"
  by (cases data) (auto split: option.splits dest: map_of_SomeD intro: rev_image_eqI)

lemma is_valid_uuid_str:
  "is_valid_uuid (JStr s) = Inr True \<or> is_valid_uuid (JStr s) = Inr False"
  by (simp add: is_valid_uuid_def UUID_def Let_def split: option.splits)

lemma is_valid_uuid_True_is_str: "is_valid_uuid j = Inr True \<Longrightarrow> \<exists>s. j = JStr s"
  by (cases j) (simp_all add: is_valid_uuid_def UUID_def)

lemma UUID_version_irrelevant:
  "UUID (JStr s) None = Inr u \<Longrightarrow> is_valid_uuid (JStr s) = Inr True"
  by (auto simp: is_valid_uuid_def UUID_def Let_def split: option.splits if_splits)

subsection \<open>\<open>submit_feedback\<close> on a request with a string \<open>uuid\<close>\<close>

lemma submit_feedback_str:
  assumes "py_getitem data ''uuid'' = Inr (JStr s)" and "py_getitem data ''feedback'' = Inr fb"
  shows "submit_feedback e data w =
     (case is_valid_uuid (JStr s) of
        Inl ex \<Rightarrow> (Inl ex, w)
      | Inr False \<Rightarrow> (Inr (Msg ''Invalid UUID format.'', 400), w)
      | Inr True \<Rightarrow>
          (case first_by_id (Feedback w) s of
             None \<Rightarrow> (Inr (Msg (not_found s), 404), w)
           | Some feedback_entry \<Rightarrow>
               (if submitted feedback_entry
                then (Inr (Msg ''Feedback already submitted for this UUID.'', 400), w)
                else if \<not> validate_email e (fb_email feedback_entry)
                then (Inr (Msg ''Invalid email address.'', 400), w)
                else
                  (case commit_user_feedback
                          \<lparr>uf_id = s, uf_email = fb_email feedback_entry,
                           uf_feedback = fb\<rparr> w of
                     Inl ex \<Rightarrow> (Inl ex, w)
                   | Inr w' \<Rightarrow> (Inr (Msg ''Feedback submitted successfully!'', 200), w')))))"
  using assms py_getitem_py_in[OF assms(1)] py_getitem_py_in[OF assms(2)]
  by (simp add: submit_feedback_def split: sum.splits bool.splits)

lemma submit_feedback_obj:
  "submit_feedback e (JObj [(''uuid'', JStr s), (''feedback'', fb)]) w =
     (case is_valid_uuid (JStr s) of
        Inl ex \<Rightarrow> (Inl ex, w)
      | Inr False \<Rightarrow> (Inr (Msg ''Invalid UUID format.'', 400), w)
      | Inr True \<Rightarrow>
          (case first_by_id (Feedback w) s of
             None \<Rightarrow> (Inr (Msg (not_found s), 404), w)
           | Some feedback_entry \<Rightarrow>
               (if submitted feedback_entry
                then (Inr (Msg ''Feedback already submitted for this UUID.'', 400), w)
                else if \<not> validate_email e (fb_email feedback_entry)
                then (Inr (Msg ''Invalid email address.'', 400), w)
                else
                  (case commit_user_feedback
                          \<lparr>uf_id = s, uf_email = fb_email feedback_entry,
                           uf_feedback = fb\<rparr> w of
                     Inl ex \<Rightarrow> (Inl ex, w)
                   | Inr w' \<Rightarrow> (Inr (Msg ''Feedback submitted successfully!'', 200), w')))))"
  by (rule submit_feedback_str) simp_all


lemma first_by_id_mark_submitted:
  "first_by_id (mark_submitted t rows) t = map_option (\<lambda>f. f\<lparr>submitted := True\<rparr>) (first_by_id rows t)"
  by (induction rows) (simp_all add: first_by_id_def mark_submitted_def)

lemma commit_user_feedback_str:
  "commit_user_feedback \<lparr>uf_id = t, uf_email = m, uf_feedback = JStr b\<rparr> w =
     (if t \<in> set (map uf_id (UserFeedback w)) then Inl IntegrityError
      else Inr (w\<lparr>UserFeedback := UserFeedback w @ [\<lparr>uf_id = t, uf_email = m, uf_feedback = JStr b\<rparr>],
                  Feedback := mark_submitted t (Feedback w)\<rparr>))"
  by (simp add: commit_user_feedback_def mark_submitted_def)

lemma commit_user_feedback_Inr:
  assumes "commit_user_feedback row w = Inr w'"
  shows "uf_id row \<notin> set (map uf_id (UserFeedback w))
       \<and> w' = w\<lparr>UserFeedback := UserFeedback w @ [row],
               Feedback := mark_submitted (uf_id row) (Feedback w)\<rparr>"
  using assms
  by (auto simp: commit_user_feedback_def mark_submitted_def split: json.splits if_splits)

lemma submit_feedback_success:
  assumes "submit_feedback e (JObj [(''uuid'', JStr t), (''feedback'', fb)]) w =
             (Inr (Msg ''Feedback submitted successfully!'', 200), w1)"
  shows "\<exists>row. first_by_id (Feedback w) t = Some row \<and> \<not> submitted row
           \<and> t \<notin> set (map uf_id (UserFeedback w))
           \<and> w1 = w\<lparr>UserFeedback := UserFeedback w
                       @ [\<lparr>uf_id = t, uf_email = fb_email row, uf_feedback = fb\<rparr>],
                     Feedback := mark_submitted t (Feedback w)\<rparr>"
  using assms
  by (auto simp: submit_feedback_obj split: sum.splits bool.splits option.splits if_splits
           dest!: commit_user_feedback_Inr)

text \<open>
  C8. Every validation and lookup failure of \<open>send_invite\<close> and \<open>submit_feedback\<close> is
  answered by a structured error, for every request body. The code does not do this for
  the body \<open>null\<close>: the test \<open>'emails' not in data\<close> (and \<open>'uuid' not in data\<close>) raises
  \<open>TypeError\<close>, which leaves the handler. The same happens for \<open>emails\<close> that cannot be
  iterated and for a \<open>uuid\<close> that is not a string.
\<close>

theorem null_body_raises:
  "send_invite e JNull w = (Inl TypeError, w)
   \<and> submit_feedback e JNull w = (Inl TypeError, w)
   \<and> send_invite e (JObj [(''emails'', JNum 5)]) w = (Inl TypeError, w)
   \<and> submit_feedback e (JObj [(''uuid'', JNum 5), (''feedback'', JStr ''great'')]) w
       = (Inl AttributeError, w)"
  by (simp add: send_invite_def submit_feedback_def is_valid_uuid_def UUID_def)



text \<open>
  C3, as the code has it. \<open>submit_feedback\<close> does not look at the text of the feedback:
  for an existing token that has not been redeemed and whose address passes the
  validator, the empty feedback is accepted like any other: the acknowledgement is
  returned, the row of \<open>UserFeedback\<close> with the empty text is stored, the flag is set,
  and a later submission for the token is refused as already submitted.
\<close>

theorem empty_feedback_accepted:
  assumes "is_valid_uuid (JStr t) = Inr True"
      and "first_by_id (Feedback w) t = Some row"
      and "\<not> submitted row"
      and "validate_email e (fb_email row)"
      and "t \<notin> set (map uf_id (UserFeedback w))"
  shows "submit_feedback e (JObj [(''uuid'', JStr t), (''feedback'', JStr [])]) w =
           (Inr (Msg ''Feedback submitted successfully!'', 200),
            w\<lparr>UserFeedback := UserFeedback w
                 @ [\<lparr>uf_id = t, uf_email = fb_email row, uf_feedback = JStr []\<rparr>],
              Feedback := mark_submitted t (Feedback w)\<rparr>)
       \<and> submit_feedback e (JObj [(''uuid'', JStr t), (''feedback'', JStr b)])
           (w\<lparr>UserFeedback := UserFeedback w
                 @ [\<lparr>uf_id = t, uf_email = fb_email row, uf_feedback = JStr []\<rparr>],
              Feedback := mark_submitted t (Feedback w)\<rparr>) =
           (Inr (Msg ''Feedback already submitted for this UUID.'', 400),
            w\<lparr>UserFeedback := UserFeedback w
                 @ [\<lparr>uf_id = t, uf_email = fb_email row, uf_feedback = JStr []\<rparr>],
              Feedback := mark_submitted t (Feedback w)\<rparr>)"
  using assms
  by (simp add: submit_feedback_obj commit_user_feedback_str first_by_id_mark_submitted)

theorem empty_feedback_accepted_witness:
  "submit_feedback sample_env
     (JObj [(''uuid'', JStr ''00000000-0000-4000-8000-000000000000''), (''feedback'', JStr [])])
     invited_world
   = (Inr (Msg ''Feedback submitted successfully!'', 200),
      invited_world\<lparr>UserFeedback := [\<lparr>uf_id = ''00000000-0000-4000-8000-000000000000'',
                        uf_email = ''a@x.com'', uf_feedback = JStr []\<rparr>],
         Feedback := [\<lparr>fb_id = ''00000000-0000-4000-8000-000000000000'',
                    fb_email = ''a@x.com'', submitted = True\<rparr>]\<rparr>)"
proof -
  let ?t = "''00000000-0000-4000-8000-000000000000''"
  let ?row = "\<lparr>fb_id = ?t, fb_email = ''a@x.com'', submitted = False\<rparr>"
  have h1: "is_valid_uuid (JStr ?t) = Inr True" by code_simp
  have h2: "first_by_id (Feedback invited_world) ?t = Some ?row" by code_simp
  have h3: "\<not> submitted ?row" by simp
  have h4: "validate_email sample_env (fb_email ?row)" by code_simp
  have h5: "?t \<notin> set (map uf_id (UserFeedback invited_world))" by code_simp
  have m: "mark_submitted ?t (Feedback invited_world) =
      [\<lparr>fb_id = ?t, fb_email = ''a@x.com'', submitted = True\<rparr>]"
    by code_simp
  have u: "UserFeedback invited_world = []" by code_simp
  from empty_feedback_accepted[OF h1 h2 h3 h4 h5] show ?thesis
    by (simp add: m u)
qed

text \<open>
  C3 as stated fails: for the token of \<open>a@x.com\<close>, the empty feedback is acknowledged,
  the flag is set and the row with the empty text is stored.
\<close>

theorem empty_feedback_counterexample:
  "submit_feedback sample_env
     (JObj [(''uuid'', JStr ''00000000-0000-4000-8000-000000000000''), (''feedback'', JStr [])])
     invited_world
   = (Inr (Msg ''Feedback submitted successfully!'', 200),
      \<lparr>Feedback = [\<lparr>fb_id = ''00000000-0000-4000-8000-000000000000'',
                    fb_email = ''a@x.com'', submitted = True\<rparr>],
       UserFeedback = [\<lparr>uf_id = ''00000000-0000-4000-8000-000000000000'',
                        uf_email = ''a@x.com'', uf_feedback = JStr []\<rparr>],
       drawn = 1\<rparr>)"
  by code_simp

text \<open>
  C5. After a submission for the token \<open>t\<close> with the text \<open>b\<close> has been acknowledged,
  a second submission for \<open>t\<close>, whatever its feedback, is refused as already submitted
  and changes nothing; the one row of \<open>UserFeedback\<close> for \<open>t\<close> holds \<open>b\<close>.
\<close>

theorem second_submit_refused:
  assumes "submit_feedback e (JObj [(''uuid'', JStr t), (''feedback'', JStr b)]) w =
             (Inr (Msg ''Feedback submitted successfully!'', 200), w1)"
  shows "submit_feedback e (JObj [(''uuid'', JStr t), (''feedback'', b2)]) w1 =
           (Inr (Msg ''Feedback already submitted for this UUID.'', 400), w1)
       \<and> map uf_feedback (filter (\<lambda>u. uf_id u = t) (UserFeedback w1)) = [JStr b]"
proof -
  from submit_feedback_success[OF assms] obtain row where
    row: "first_by_id (Feedback w) t = Some row" and
    fresh: "t \<notin> set (map uf_id (UserFeedback w))" and
    w1: "w1 = w\<lparr>UserFeedback := UserFeedback w
                       @ [\<lparr>uf_id = t, uf_email = fb_email row, uf_feedback = JStr b\<rparr>],
                 Feedback := mark_submitted t (Feedback w)\<rparr>"
    by blast
  have valid: "is_valid_uuid (JStr t) = Inr True"
    using assms is_valid_uuid_str[of t]
    by (auto simp: submit_feedback_obj split: sum.splits bool.splits)
  have none: "filter (\<lambda>u. uf_id u = t) (UserFeedback w) = []"
    using fresh by (auto simp: filter_empty_conv)
  have second: "submit_feedback e (JObj [(''uuid'', JStr t), (''feedback'', b2)]) w1 =
           (Inr (Msg ''Feedback already submitted for this UUID.'', 400), w1)"
    by (simp add: submit_feedback_obj valid w1 first_by_id_mark_submitted row)
  have stored: "map uf_feedback (filter (\<lambda>u. uf_id u = t) (UserFeedback w1)) = [JStr b]"
    by (simp add: w1 none)
  from second stored show ?thesis by blast
qed

theorem second_submit_refused_witness:
  "submit_feedback sample_env
     (JObj [(''uuid'', JStr ''00000000-0000-4000-8000-000000000000''),
            (''feedback'', JStr ''changed my mind'')]) redeemed_world =
           (Inr (Msg ''Feedback already submitted for this UUID.'', 400), redeemed_world)
   \<and> map uf_feedback (filter (\<lambda>u. uf_id u = ''00000000-0000-4000-8000-000000000000'')
        (UserFeedback redeemed_world)) = [JStr ''great'']"
proof -
  have h: "submit_feedback sample_env
     (JObj [(''uuid'', JStr ''00000000-0000-4000-8000-000000000000''),
            (''feedback'', JStr ''great'')]) invited_world =
     (Inr (Msg ''Feedback submitted successfully!'', 200), redeemed_world)"
    by code_simp
  from second_submit_refused[OF h] show ?thesis .
qed

subsection \<open>The text of a generated identifier is accepted by \<open>is_valid_uuid\<close>\<close>

lemma digit16_hexchar: "0 \<le> d \<Longrightarrow> d < 16 \<Longrightarrow> digit16 (hexchar d) = Some d"
proof -
  assume "0 \<le> d" "d < 16"
  then have "d = 0 \<or> d = 1 \<or> d = 2 \<or> d = 3 \<or> d = 4 \<or> d = 5 \<or> d = 6 \<or> d = 7 \<or> d = 8
      \<or> d = 9 \<or> d = 10 \<or> d = 11 \<or> d = 12 \<or> d = 13 \<or> d = 14 \<or> d = 15"
    by presburger
  then show ?thesis
    by (elim disjE; hypsubst_thin; code_simp)
qed

lemma digit16_underscore: "digit16 CHR ''_'' = None"
  by (simp add: digit16_def)

lemma digit16_class:
  assumes "digit16 c \<noteq> None"
  shows "\<not> isspace c" and "c \<noteq> CHR ''+''" and "c \<noteq> CHR ''-''" and "c \<noteq> CHR ''x''"
    and "c \<noteq> CHR ''X''" and "c \<noteq> CHR ''_''" and "c \<noteq> CHR ''{''" and "c \<noteq> CHR ''}''"
    and "c \<noteq> CHR ''u''"
  using assms
  by (auto simp: digit16_def isspace_def Let_def split: if_splits)

lemma length_hex_digits: "length (hex_digits k i) = k"
  by (induction k arbitrary: i) simp_all

lemma hex_digits_are_digits: "c \<in> set (hex_digits k i) \<Longrightarrow> digit16 c \<noteq> None"
  by (induction k arbitrary: i) (auto simp: digit16_hexchar)

lemma scan_digits_all_digits:
  "\<forall>c\<in>set s. digit16 c \<noteq> None \<Longrightarrow>
   scan_digits False acc s = Some (foldl (\<lambda>a c. 16 * a + the (digit16 c)) acc s, [])"
  by (induction s arbitrary: acc) (auto simp: digit16_underscore)

lemma foldl_hex_digits:
  "foldl (\<lambda>a c. 16 * a + the (digit16 c)) acc (hex_digits k i) = acc * 16 ^ k + i mod 16 ^ k"
proof (induction k arbitrary: i)
  case 0
  show ?case by simp
next
  case (Suc k)
  have "i mod (16 * 16 ^ k) = 16 * (i div 16 mod 16 ^ k) + i mod 16"
    using mod_mult2_eq'[of i 16 "16 ^ k"] by simp
  with Suc show ?case
    by (simp add: digit16_hexchar algebra_simps)
qed

lemma int16_all_digits:
  assumes "\<forall>c\<in>set s. digit16 c \<noteq> None" and "2 \<le> length s"
  shows "int16 s = Some (foldl (\<lambda>a c. 16 * a + the (digit16 c)) 0 s)"
proof -
  from assms(2) obtain c0 c1 rest where s: "s = c0 # c1 # rest"
    by (cases s; cases "tl s") auto
  have c0: "digit16 c0 \<noteq> None" and c1: "digit16 c1 \<noteq> None"
    using assms(1) by (simp_all add: s)
  have skip: "skip_prefix16 s = s"
    using digit16_class(4,5)[OF c1] by (simp add: skip_prefix16_def s)
  have scan: "scan_digits False 0 s = Some (foldl (\<lambda>a c. 16 * a + the (digit16 c)) 0 s, [])"
    by (rule scan_digits_all_digits[OF assms(1)])
  have drop: "dropWhile isspace s = s"
    using digit16_class(1)[OF c0] by (simp add: s)
  have us: "\<not> startswith s ''_''"
    using digit16_class(6)[OF c0] by (simp add: s)
  have cs: "(case s of [] \<Rightarrow> (1::int, s)
              | c # cs \<Rightarrow> (if c = CHR ''+'' then (1, cs)
                           else if c = CHR ''-'' then (- 1, cs) else (1, s))) = (1, s)"
    using digit16_class(2,3)[OF c0] by (simp add: s)
  have len: "length ([]::string) \<noteq> length s"
    by (simp add: s)
  show ?thesis
    unfolding int16_def Let_def drop cs
    using us len by (simp add: skip scan)
qed

lemma remove_all_absent: "old \<noteq> [] \<Longrightarrow> hd old \<notin> set s \<Longrightarrow> remove_all old s = s"
proof (induction s)
  case Nil
  show ?case by simp
next
  case (Cons c cs)
  from Cons.prems obtain p ps where old: "old = p # ps" by (cases old) auto
  with Cons.prems have "c \<noteq> p" by auto
  then have "\<not> startswith (c # cs) old" by (simp add: old)
  with Cons show ?case by simp
qed

lemma remove_all_single: "remove_all [p] s = filter (\<lambda>c. c \<noteq> p) s"
  by (induction s) auto

lemma strip_absent: "\<forall>c\<in>set s. c \<notin> set chars \<Longrightarrow> strip chars s = s"
proof -
  assume a: "\<forall>c\<in>set s. c \<notin> set chars"
  have 1: "dropWhile (\<lambda>c. c \<in> set chars) s = s"
    using a by (cases s) auto
  have 2: "dropWhile (\<lambda>c. c \<in> set chars) (rev s) = rev s"
    using a by (cases "rev s") (auto simp: Cons_eq_append_conv dest!: arg_cong[where f = set])
  show ?thesis by (simp add: strip_def 1 2)
qed

lemma split_in_groups:
  "take 8 h @ take 4 (drop 8 h) @ take 4 (drop 12 h) @ take 4 (drop 16 h) @ drop 20 h = h"
proof -
  have "take 8 h @ take 4 (drop 8 h) = take 12 h"
    using take_add[of 8 4 h] by simp
  moreover have "take 12 h @ take 4 (drop 12 h) = take 16 h"
    using take_add[of 12 4 h] by simp
  moreover have "take 16 h @ take 4 (drop 16 h) = take 20 h"
    using take_add[of 16 4 h] by simp
  ultimately have "take 8 h @ take 4 (drop 8 h) @ take 4 (drop 12 h) @ take 4 (drop 16 h)
      = take 20 h"
    by (metis append.assoc)
  then have "(take 8 h @ take 4 (drop 8 h) @ take 4 (drop 12 h) @ take 4 (drop 16 h)) @ drop 20 h
      = h"
    by simp
  then show ?thesis by simp
qed

lemma str_of_uuid_chars:
  "c \<in> set (str_of_uuid i) \<Longrightarrow> digit16 c \<noteq> None \<or> c = CHR ''-''"
  by (auto simp: str_of_uuid_def Let_def dest!: in_set_takeD in_set_dropD hex_digits_are_digits)

lemma filter_dash_digits:
  assumes "set xs \<subseteq> set (hex_digits k i)"
  shows "filter (\<lambda>c. c \<noteq> CHR ''-'') xs = xs"
proof -
  have "\<forall>c\<in>set xs. c \<noteq> CHR ''-''"
    using assms hex_digits_are_digits digit16_class(3) by blast
  then show ?thesis by (simp add: filter_id_conv)
qed

lemma filter_dash_str_of_uuid:
  "filter (\<lambda>c. c \<noteq> CHR ''-'') (str_of_uuid i) = hex_digits 32 i"
proof -
  let ?h = "hex_digits 32 i"
  have t: "\<And>n. filter (\<lambda>c. c \<noteq> CHR ''-'') (take n ?h) = take n ?h"
    by (rule filter_dash_digits[of _ 32 i]) (rule set_take_subset)
  have d: "\<And>n. filter (\<lambda>c. c \<noteq> CHR ''-'') (drop n ?h) = drop n ?h"
    by (rule filter_dash_digits[of _ 32 i]) (rule set_drop_subset)
  have td: "\<And>n m. filter (\<lambda>c. c \<noteq> CHR ''-'') (take n (drop m ?h)) = take n (drop m ?h)"
    by (rule filter_dash_digits[of _ 32 i])
       (meson set_take_subset set_drop_subset subset_trans)
  show ?thesis
    by (simp add: str_of_uuid_def Let_def t d td split_in_groups del: hex_digits.simps)
qed

lemma is_valid_uuid_str_of_uuid: "is_valid_uuid (JStr (str_of_uuid i)) = Inr True"
proof -
  let ?s = "str_of_uuid i"
  have nu: "CHR ''u'' \<notin> set ?s"
    using str_of_uuid_chars[of "CHR ''u''" i] digit16_class(9)[of "CHR ''u''"] by auto
  have nb: "\<forall>c\<in>set ?s. c \<notin> set ''{}''"
    using str_of_uuid_chars digit16_class(7,8) by fastforce
  have r1: "remove_all ''urn:'' ?s = ?s"
    by (rule remove_all_absent) (simp_all add: nu)
  have r2: "remove_all ''uuid:'' ?s = ?s"
    by (rule remove_all_absent) (simp_all add: nu)
  have r3: "strip ''{}'' ?s = ?s"
    by (rule strip_absent[OF nb])
  have r4: "remove_all ''-'' ?s = hex_digits 32 i"
    by (simp add: remove_all_single filter_dash_str_of_uuid)
  have v: "int16 (hex_digits 32 i) = Some (i mod 16 ^ 32)"
    using int16_all_digits[of "hex_digits 32 i"] hex_digits_are_digits[of _ 32 i]
    by (simp add: foldl_hex_digits length_hex_digits del: hex_digits.simps)
  have lo: "0 \<le> i mod 16 ^ 32" by simp
  have hi: "i mod 16 ^ 32 < 2 ^ 128"
  proof -
    have "i mod 16 ^ 32 < 16 ^ 32" by simp
    then show ?thesis by simp
  qed
  show ?thesis
    using lo hi
    by (simp add: is_valid_uuid_def UUID_def r1 r2 r3 r4 v length_hex_digits
             del: hex_digits.simps)
qed

subsection \<open>Queries on the table \<open>Feedback\<close>\<close>

lemma find_append_cases:
  "find P (xs @ ys) = (case find P xs of None \<Rightarrow> find P ys | Some x \<Rightarrow> Some x)"
  by (induction xs) simp_all

lemma first_by_id_append:
  "first_by_id (rows @ new) t =
     (case first_by_id rows t of None \<Rightarrow> first_by_id new t | Some r \<Rightarrow> Some r)"
  unfolding first_by_id_def by (rule find_append_cases)

lemma first_by_email_append:
  "first_by_email (rows @ new) m =
     (case first_by_email rows m of None \<Rightarrow> first_by_email new m | Some r \<Rightarrow> Some r)"
  unfolding first_by_email_def by (rule find_append_cases)

lemma first_by_id_None: "first_by_id rows t = None \<longleftrightarrow> t \<notin> set (map fb_id rows)"
  by (auto simp: first_by_id_def find_None_iff)

lemma first_by_email_None:
  "first_by_email rows m = None \<longleftrightarrow> filter (\<lambda>r. fb_email r = m) rows = []"
  by (auto simp: first_by_email_def find_None_iff filter_empty_conv)

subsection \<open>The loop of \<open>send_invite\<close>\<close>

lemma the_strs_map_JStr: "the_strs (map JStr xs) = xs"
  by (induction xs) simp_all

lemma all_str_map_JStr: "list_all isinstance_str (map JStr xs)"
  by (induction xs) simp_all

lemma send_invite_request:
  "xs \<noteq> [] \<Longrightarrow> send_invite e (invite_request xs) w =
     (case for_emails e xs [] [] w of
        (Inl ex, w') \<Rightarrow> (Inl ex, w')
      | (Inr (s, er), w') \<Rightarrow> (Inr (Report s er, 200), w'))"
  by (simp add: send_invite_def invite_request_def the_strs_map_JStr all_str_map_JStr)

lemma snd_send_invite_request:
  "xs \<noteq> [] \<Longrightarrow> snd (send_invite e (invite_request xs) w) = snd (for_emails e xs [] [] w)"
  by (simp add: send_invite_request split: prod.splits sum.splits)

lemma for_emails_duplicate:
  "first_by_email (Feedback w) email = Some r \<Longrightarrow>
   for_emails e (email # rest) s er w = for_emails e rest s (er @ [already_invited email]) w"
  by simp

lemma for_emails_new:
  assumes "first_by_email (Feedback w) email = None"
      and "tid = str_of_uuid (uuid4 (urandom e (drawn w)))"
      and "tid \<notin> set (map fb_id (Feedback w))"
  shows "for_emails e (email # rest) s er w =
     (case mail_send e (invitation e email tid) of
        None \<Rightarrow> for_emails e rest (s @ [sent_ok email]) er
                 (w\<lparr>drawn := Suc (drawn w),
                    Feedback := Feedback w @ [\<lparr>fb_id = tid, fb_email = email, submitted = False\<rparr>]\<rparr>)
      | Some err \<Rightarrow> for_emails e rest s (er @ [send_failed email err])
                 (w\<lparr>drawn := Suc (drawn w),
                    Feedback := Feedback w @ [\<lparr>fb_id = tid, fb_email = email, submitted = False\<rparr>]\<rparr>))"
  using assms by (simp add: Let_def commit_feedback_def split: option.splits)

lemma for_emails_collision:
  assumes "first_by_email (Feedback w) email = None"
      and "str_of_uuid (uuid4 (urandom e (drawn w))) \<in> set (map fb_id (Feedback w))"
  shows "for_emails e (email # rest) s er w = (Inl IntegrityError, w\<lparr>drawn := Suc (drawn w)\<rparr>)"
  using assms by (simp add: Let_def commit_feedback_def)

lemma for_emails_UserFeedback:
  "UserFeedback (snd (for_emails e xs s er w)) = UserFeedback w"
proof (induction xs arbitrary: s er w)
  case Nil
  show ?case by simp
next
  case (Cons email rest)
  show ?case
  proof (cases "first_by_email (Feedback w) email")
    case (Some r)
    then show ?thesis by (simp add: Cons.IH)
  next
    case None
    show ?thesis
    proof (cases "str_of_uuid (uuid4 (urandom e (drawn w))) \<in> set (map fb_id (Feedback w))")
      case True
      with None show ?thesis by (simp add: for_emails_collision del: for_emails.simps)
    next
      case False
      with None show ?thesis
        by (simp add: for_emails_new[OF None refl] Cons.IH del: for_emails.simps split: option.splits)
    qed
  qed
qed

lemma for_emails_submitted:
  "filter submitted (Feedback (snd (for_emails e xs s er w))) = filter submitted (Feedback w)"
proof (induction xs arbitrary: s er w)
  case Nil
  show ?case by simp
next
  case (Cons email rest)
  show ?case
  proof (cases "first_by_email (Feedback w) email")
    case (Some r)
    then show ?thesis by (simp add: Cons.IH)
  next
    case None
    show ?thesis
    proof (cases "str_of_uuid (uuid4 (urandom e (drawn w))) \<in> set (map fb_id (Feedback w))")
      case True
      with None show ?thesis by (simp add: for_emails_collision del: for_emails.simps)
    next
      case False
      with None show ?thesis
        by (simp add: for_emails_new[OF None refl] Cons.IH del: for_emails.simps split: option.splits)
    qed
  qed
qed

lemma for_emails_keeps_row:
  "first_by_id (Feedback w) t = Some r \<Longrightarrow>
   first_by_id (Feedback (snd (for_emails e xs s er w))) t = Some r"
proof (induction xs arbitrary: s er w)
  case Nil
  then show ?case by simp
next
  case (Cons email rest)
  show ?case
  proof (cases "first_by_email (Feedback w) email")
    case (Some r')
    then show ?thesis using Cons.prems by (simp add: Cons.IH)
  next
    case None
    show ?thesis
    proof (cases "str_of_uuid (uuid4 (urandom e (drawn w))) \<in> set (map fb_id (Feedback w))")
      case True
      with None show ?thesis using Cons.prems by (simp add: for_emails_collision del: for_emails.simps)
    next
      case False
      with None show ?thesis using Cons.prems
        by (simp add: for_emails_new[OF None refl] Cons.IH first_by_id_append del: for_emails.simps split: option.splits)
    qed
  qed
qed

lemma for_emails_mail_irrelevant:
  "snd (for_emails (e\<lparr>mail_send := f\<rparr>) xs s' er' w) = snd (for_emails e xs s er w)"
proof (induction xs arbitrary: s er s' er' w)
  case Nil
  show ?case by simp
next
  case (Cons email rest)
  let ?e' = "e\<lparr>mail_send := f\<rparr>"
  let ?tid = "str_of_uuid (uuid4 (urandom e (drawn w)))"
  have tid': "str_of_uuid (uuid4 (urandom ?e' (drawn w))) = ?tid" by simp
  show ?case
  proof (cases "first_by_email (Feedback w) email")
    case (Some r)
    then show ?thesis by (simp add: Cons.IH[of s' _ w s])
  next
    case None
    show ?thesis
    proof (cases "?tid \<in> set (map fb_id (Feedback w))")
      case True
      with None show ?thesis by (simp add: for_emails_collision del: for_emails.simps)
    next
      case False
      have l: "for_emails ?e' (email # rest) s' er' w =
        (case mail_send ?e' (invitation ?e' email ?tid) of
        None \<Rightarrow> for_emails ?e' rest (s' @ [sent_ok email]) er'
                 (w\<lparr>drawn := Suc (drawn w),
                    Feedback := Feedback w @ [\<lparr>fb_id = ?tid, fb_email = email, submitted = False\<rparr>]\<rparr>)
      | Some err \<Rightarrow> for_emails ?e' rest s' (er' @ [send_failed email err])
                 (w\<lparr>drawn := Suc (drawn w),
                    Feedback := Feedback w @ [\<lparr>fb_id = ?tid, fb_email = email, submitted = False\<rparr>]\<rparr>))"
        using False by (intro for_emails_new[OF None]) simp_all
      show ?thesis
        unfolding l for_emails_new[OF None refl False]
        by (auto split: option.splits intro: Cons.IH)
    qed
  qed
qed

text \<open>
  C1. When \<open>send_invite\<close> is called twice for the same address, in a state with at most
  one token for the address (every reachable state is one, by
  \<open>reachable_one_token_per_email\<close> below) and where the identifier drawn for a new token
  is not yet a key of the table, then after both calls exactly one row of \<open>Feedback\<close> has
  this address, the second call reports that the address is already invited, and the
  second call leaves the state as the first call left it, so the token's \<open>id\<close>, \<open>email\<close>
  and flag are unchanged.
\<close>

theorem second_invite_is_duplicate:
  assumes "length (filter (\<lambda>r. fb_email r = email) (Feedback w)) \<le> 1"
      and "first_by_email (Feedback w) email = None \<longrightarrow>
             str_of_uuid (uuid4 (urandom e (drawn w))) \<notin> set (map fb_id (Feedback w))"
      and "send_invite e (invite_request [email]) w = (r1, w1)"
      and "send_invite e (invite_request [email]) w1 = (r2, w2)"
  shows "length (filter (\<lambda>r. fb_email r = email) (Feedback w2)) = 1
       \<and> r2 = Inr (Report [] [already_invited email], 200)
       \<and> w2 = w1"
proof (cases "first_by_email (Feedback w) email")
  case (Some r)
  then have "filter (\<lambda>r. fb_email r = email) (Feedback w) \<noteq> []"
    by (simp add: first_by_email_None[symmetric])
  then have one: "length (filter (\<lambda>r. fb_email r = email) (Feedback w)) = 1"
    using assms(1) by (cases "filter (\<lambda>r. fb_email r = email) (Feedback w)") auto
  have w1: "w1 = w"
    using assms(3) Some by (simp add: send_invite_request)
  have "r2 = Inr (Report [] [already_invited email], 200) \<and> w2 = w"
    using assms(4) Some by (auto simp: send_invite_request w1)
  with one w1 show ?thesis by simp
next
  case None
  let ?tid = "str_of_uuid (uuid4 (urandom e (drawn w)))"
  let ?w' = "w\<lparr>drawn := Suc (drawn w),
               Feedback := Feedback w @ [\<lparr>fb_id = ?tid, fb_email = email, submitted = False\<rparr>]\<rparr>"
  from None assms(2) have fresh: "?tid \<notin> set (map fb_id (Feedback w))" by simp
  have w1: "w1 = ?w'"
    using assms(3)
    by (auto simp: send_invite_request for_emails_new[OF None refl fresh]
             simp del: for_emails.simps(2) split: option.splits)
  have empty: "filter (\<lambda>r. fb_email r = email) (Feedback w) = []"
    using None by (simp add: first_by_email_None)
  have found: "first_by_email (Feedback ?w') email
                 = Some \<lparr>fb_id = ?tid, fb_email = email, submitted = False\<rparr>"
    using None by (simp add: first_by_email_append) (simp add: first_by_email_def)
  have "r2 = Inr (Report [] [already_invited email], 200) \<and> w2 = ?w'"
    using assms(4) unfolding w1
    by (auto simp: send_invite_request for_emails_duplicate[OF found] simp del: for_emails.simps(2))
  then show ?thesis by (simp add: w1 empty)
qed

theorem second_invite_is_duplicate_witness:
  "length (filter (\<lambda>r. fb_email r = ''a@x.com'') (Feedback invited_world)) = 1
   \<and> send_invite sample_env (invite_request [''a@x.com'']) invited_world
       = (Inr (Report [] [already_invited ''a@x.com''], 200), invited_world)"
proof -
  have h1: "length (filter (\<lambda>r. fb_email r = ''a@x.com'') (Feedback empty_world)) \<le> 1"
    by code_simp
  have h2: "first_by_email (Feedback empty_world) ''a@x.com'' = None \<longrightarrow>
             str_of_uuid (uuid4 (urandom sample_env (drawn empty_world)))
               \<notin> set (map fb_id (Feedback empty_world))"
    by code_simp
  have h3: "send_invite sample_env (invite_request [''a@x.com'']) empty_world
             = (Inr (Report [sent_ok ''a@x.com''] [], 200), invited_world)"
    by code_simp
  obtain r2 w2 where h4: "send_invite sample_env (invite_request [''a@x.com'']) invited_world
             = (r2, w2)"
    by (cases "send_invite sample_env (invite_request [''a@x.com'']) invited_world")
  from second_invite_is_duplicate[OF h1 h2 h3 h4] h4 show ?thesis by auto
qed

text \<open>
  C4, as the code has it. An entry of \<open>emails\<close> that is not a string is not recorded as
  a failure of its own: \<open>send_invite\<close> then refuses the whole request with the status
  400 before the loop, and no entry of the batch is processed or stored. An empty string
  is a string: it is processed like any other address, and a token is stored for it when
  it has not been invited before.
\<close>

theorem non_string_entry_rejects_batch:
  "(\<not> list_all isinstance_str xs \<longrightarrow>
      send_invite e (JObj [(''emails'', JArr xs)]) w =
        (Inr (Msg ''Invalid or empty email array.'', 400), w))
   \<and> (first_by_email (Feedback w) [] = None
        \<and> str_of_uuid (uuid4 (urandom e (drawn w))) \<notin> set (map fb_id (Feedback w)) \<longrightarrow>
      Feedback (snd (send_invite e (invite_request [[]]) w)) =
        Feedback w @ [\<lparr>fb_id = str_of_uuid (uuid4 (urandom e (drawn w))), fb_email = [],
                        submitted = False\<rparr>])"
proof (intro conjI impI)
  assume "\<not> list_all isinstance_str xs"
  then show "send_invite e (JObj [(''emails'', JArr xs)]) w =
        (Inr (Msg ''Invalid or empty email array.'', 400), w)"
    by (auto simp: send_invite_def)
next
  assume a: "first_by_email (Feedback w) [] = None
        \<and> str_of_uuid (uuid4 (urandom e (drawn w))) \<notin> set (map fb_id (Feedback w))"
  then have none: "first_by_email (Feedback w) [] = None"
    and fresh: "str_of_uuid (uuid4 (urandom e (drawn w))) \<notin> set (map fb_id (Feedback w))"
    by simp_all
  show "Feedback (snd (send_invite e (invite_request [[]]) w)) =
        Feedback w @ [\<lparr>fb_id = str_of_uuid (uuid4 (urandom e (drawn w))), fb_email = [],
                        submitted = False\<rparr>]"
    by (simp add: snd_send_invite_request for_emails_new[OF none refl fresh]
             del: for_emails.simps(2) split: option.splits)
qed

theorem non_string_entry_rejects_batch_witness:
  "send_invite sample_env (JObj [(''emails'', JArr [JStr ''a@x.com'', JNull])]) invited_world =
        (Inr (Msg ''Invalid or empty email array.'', 400), invited_world)
   \<and> Feedback (snd (send_invite sample_env (invite_request [[]]) invited_world)) =
        Feedback invited_world @ [\<lparr>fb_id = ''00000000-0000-4000-8000-000000000001'',
           fb_email = [], submitted = False\<rparr>]"
proof -
  have h1: "\<not> list_all isinstance_str [JStr ''a@x.com'', JNull]"
    by simp
  have h2: "first_by_email (Feedback invited_world) [] = None
        \<and> str_of_uuid (uuid4 (urandom sample_env (drawn invited_world)))
            \<notin> set (map fb_id (Feedback invited_world))"
    by code_simp
  have t: "str_of_uuid (uuid4 (urandom sample_env (drawn invited_world)))
             = ''00000000-0000-4000-8000-000000000001''"
    by code_simp
  from non_string_entry_rejects_batch[of "[JStr ''a@x.com'', JNull]" sample_env invited_world]
       h1 h2 t
  show ?thesis by simp
qed

text \<open>
  C4 as stated fails: the number in the batch makes \<open>send_invite\<close> refuse the request
  without inviting \<open>a@x.com\<close>, and the empty string gets a token.
\<close>

theorem invalid_entry_counterexample:
  "send_invite sample_env (JObj [(''emails'', JArr [JStr ''a@x.com'', JNum 5])]) empty_world =
        (Inr (Msg ''Invalid or empty email array.'', 400), empty_world)
   \<and> send_invite sample_env (JObj [(''emails'', JArr [JStr []])]) empty_world =
        (Inr (Report [''Invite sent successfully to ''] [], 200),
         \<lparr>Feedback = [\<lparr>fb_id = ''00000000-0000-4000-8000-000000000000'', fb_email = [],
                        submitted = False\<rparr>],
          UserFeedback = [], drawn = 1\<rparr>)"
  by code_simp

text \<open>
  C9. When an address that has not been invited is invited, and the identifier drawn
  for it is not yet a key of the table, the query by that identifier finds the row with
  this address and the flag unset; \<open>submit_feedback\<close> with the identifier passes the
  format check, the lookup and the test of the flag, and goes on to validate the stored
  address and to commit.
\<close>

theorem issued_token_is_found:
  assumes "first_by_email (Feedback w) email = None"
      and "tid = str_of_uuid (uuid4 (urandom e (drawn w)))"
      and "tid \<notin> set (map fb_id (Feedback w))"
      and "w1 = snd (send_invite e (invite_request [email]) w)"
  shows "first_by_id (Feedback w1) tid = Some \<lparr>fb_id = tid, fb_email = email, submitted = False\<rparr>
       \<and> submit_feedback e (JObj [(''uuid'', JStr tid), (''feedback'', fb)]) w1 =
           (if \<not> validate_email e email then (Inr (Msg ''Invalid email address.'', 400), w1)
            else (case commit_user_feedback
                         \<lparr>uf_id = tid, uf_email = email, uf_feedback = fb\<rparr> w1 of
                    Inl ex \<Rightarrow> (Inl ex, w1)
                  | Inr w' \<Rightarrow> (Inr (Msg ''Feedback submitted successfully!'', 200), w')))"
proof -
  have w1: "w1 = w\<lparr>drawn := Suc (drawn w),
                   Feedback := Feedback w @ [\<lparr>fb_id = tid, fb_email = email, submitted = False\<rparr>]\<rparr>"
    unfolding assms(4)
    by (simp add: snd_send_invite_request for_emails_new[OF assms(1-3)]
             del: for_emails.simps(2) split: option.splits)
  have absent: "first_by_id (Feedback w) tid = None"
    using assms(3) by (simp add: first_by_id_None)
  have found: "first_by_id (Feedback w1) tid
                 = Some \<lparr>fb_id = tid, fb_email = email, submitted = False\<rparr>"
    by (simp add: w1 first_by_id_append absent) (simp add: first_by_id_def)
  have valid: "is_valid_uuid (JStr tid) = Inr True"
    unfolding assms(2) by (rule is_valid_uuid_str_of_uuid)
  show ?thesis
    by (simp add: found submit_feedback_obj valid)
qed

theorem issued_token_is_found_witness:
  "first_by_id (Feedback invited_world) ''00000000-0000-4000-8000-000000000000''
     = Some \<lparr>fb_id = ''00000000-0000-4000-8000-000000000000'', fb_email = ''a@x.com'',
             submitted = False\<rparr>
   \<and> submit_feedback sample_env
       (JObj [(''uuid'', JStr ''00000000-0000-4000-8000-000000000000''),
              (''feedback'', JStr ''great'')]) invited_world
     = (Inr (Msg ''Feedback submitted successfully!'', 200), redeemed_world)"
proof -
  have h1: "first_by_email (Feedback empty_world) ''a@x.com'' = None"
    by code_simp
  have h2: "''00000000-0000-4000-8000-000000000000''
              = str_of_uuid (uuid4 (urandom sample_env (drawn empty_world)))"
    by code_simp
  have h3: "''00000000-0000-4000-8000-000000000000'' \<notin> set (map fb_id (Feedback empty_world))"
    by code_simp
  have h4: "invited_world = snd (send_invite sample_env (invite_request [''a@x.com'']) empty_world)"
    by code_simp
  have v: "validate_email sample_env ''a@x.com''"
    by code_simp
  have c: "commit_user_feedback
             \<lparr>uf_id = ''00000000-0000-4000-8000-000000000000'', uf_email = ''a@x.com'',
              uf_feedback = JStr ''great''\<rparr> invited_world = Inr redeemed_world"
    by code_simp
  from issued_token_is_found[OF h1 h2 h3 h4, of "JStr ''great''"] v c
  show ?thesis by simp
qed

text \<open>
  C7. When the token for an address has been committed and \<open>mail.send\<close> raises for its
  invitation, the loop records one error message, naming this address and the text of
  the exception, and goes on with the rest of the batch from the state that holds the
  token. The state \<open>send_invite\<close> leaves is the one it leaves when the transport delivers
  everything; at the end of the batch the query by the identifier still finds the row
  with the flag unset; and a submission for it is acknowledged when the stored address
  passes the validator.
\<close>

theorem failed_send_keeps_token:
  assumes "first_by_email (Feedback w) email = None"
      and "tid = str_of_uuid (uuid4 (urandom e (drawn w)))"
      and "tid \<notin> set (map fb_id (Feedback w))"
      and "mail_send e (invitation e email tid) = Some err"
      and "w' = snd (send_invite e (invite_request (email # rest)) w)"
  shows "for_emails e (email # rest) s er w =
           for_emails e rest s (er @ [send_failed email err])
             (w\<lparr>drawn := Suc (drawn w),
                Feedback := Feedback w
                  @ [\<lparr>fb_id = tid, fb_email = email, submitted = False\<rparr>]\<rparr>)
       \<and> send_invite e (invite_request [email]) w =
           (Inr (Report [] [send_failed email err], 200),
            w\<lparr>drawn := Suc (drawn w),
               Feedback := Feedback w
                 @ [\<lparr>fb_id = tid, fb_email = email, submitted = False\<rparr>]\<rparr>)
       \<and> w' = snd (send_invite (e\<lparr>mail_send := (\<lambda>m. None)\<rparr>) (invite_request (email # rest)) w)
       \<and> first_by_id (Feedback w') tid
           = Some \<lparr>fb_id = tid, fb_email = email, submitted = False\<rparr>
       \<and> (validate_email e email \<and> tid \<notin> set (map uf_id (UserFeedback w)) \<longrightarrow>
            fst (submit_feedback e (JObj [(''uuid'', JStr tid), (''feedback'', JStr b)]) w')
              = Inr (Msg ''Feedback submitted successfully!'', 200))"
proof -
  let ?row = "\<lparr>fb_id = tid, fb_email = email, submitted = False\<rparr>"
  let ?w2 = "w\<lparr>drawn := Suc (drawn w), Feedback := Feedback w @ [?row]\<rparr>"
  have step: "for_emails e (email # rest') s er w
                = for_emails e rest' s (er @ [send_failed email err]) ?w2" for s er rest'
    by (simp add: for_emails_new[OF assms(1-3)] assms(4) del: for_emails.simps(2))
  have single: "send_invite e (invite_request [email]) w =
           (Inr (Report [] [send_failed email err], 200), ?w2)"
    by (simp add: send_invite_request step del: for_emails.simps(2))
  have w': "w' = snd (for_emails e rest [] [send_failed email err] ?w2)"
    unfolding assms(5) by (simp add: snd_send_invite_request step del: for_emails.simps(2))
  have req: "snd (send_invite e0 (invite_request (email # rest)) w)
               = snd (for_emails e0 (email # rest) [] [] w)" for e0
    by (simp add: snd_send_invite_request del: for_emails.simps)
  have same: "w' = snd (send_invite (e\<lparr>mail_send := (\<lambda>m. None)\<rparr>)
                          (invite_request (email # rest)) w)"
    unfolding assms(5) req by (rule for_emails_mail_irrelevant[symmetric])
  have absent: "first_by_id (Feedback w) tid = None"
    using assms(3) by (simp add: first_by_id_None)
  have "first_by_id (Feedback ?w2) tid = Some ?row"
    by (simp add: first_by_id_append absent) (simp add: first_by_id_def)
  then have found: "first_by_id (Feedback w') tid = Some ?row"
    unfolding w' by (rule for_emails_keeps_row)
  have uf: "UserFeedback w' = UserFeedback w"
    unfolding w' by (simp add: for_emails_UserFeedback)
  have valid: "is_valid_uuid (JStr tid) = Inr True"
    unfolding assms(2) by (rule is_valid_uuid_str_of_uuid)
  have redeem: "fst (submit_feedback e (JObj [(''uuid'', JStr tid), (''feedback'', JStr b)]) w')
              = Inr (Msg ''Feedback submitted successfully!'', 200)"
    if "validate_email e email \<and> tid \<notin> set (map uf_id (UserFeedback w))"
    using that by (simp add: submit_feedback_obj valid found commit_user_feedback_str uf)
  from step single same found redeem show ?thesis by blast
qed

theorem failed_send_keeps_token_witness:
  "send_invite offline_env (invite_request [''a@x.com'']) empty_world =
     (Inr (Report [] [''Error sending invite to a@x.com: Connection refused''], 200),
      invited_world)
   \<and> invited_world = snd (send_invite sample_env (invite_request [''a@x.com'']) empty_world)
   \<and> fst (submit_feedback offline_env
        (JObj [(''uuid'', JStr ''00000000-0000-4000-8000-000000000000''),
               (''feedback'', JStr ''great'')]) invited_world)
       = Inr (Msg ''Feedback submitted successfully!'', 200)"
proof -
  let ?t = "''00000000-0000-4000-8000-000000000000''"
  have h1: "first_by_email (Feedback empty_world) ''a@x.com'' = None"
    by code_simp
  have h2: "?t = str_of_uuid (uuid4 (urandom offline_env (drawn empty_world)))"
    by code_simp
  have h3: "?t \<notin> set (map fb_id (Feedback empty_world))"
    by code_simp
  have h4: "mail_send offline_env (invitation offline_env ''a@x.com'' ?t)
              = Some ''Connection refused''"
    by code_simp
  have h5: "invited_world = snd (send_invite offline_env (invite_request [''a@x.com'']) empty_world)"
    by code_simp
  have v: "validate_email offline_env ''a@x.com'' \<and> ?t \<notin> set (map uf_id (UserFeedback empty_world))"
    by code_simp
  have e: "offline_env\<lparr>mail_send := (\<lambda>m. None)\<rparr> = sample_env"
    by (simp add: offline_env_def sample_env_def)
  have w: "empty_world\<lparr>drawn := Suc (drawn empty_world),
               Feedback := Feedback empty_world
                 @ [\<lparr>fb_id = ?t, fb_email = ''a@x.com'', submitted = False\<rparr>]\<rparr> = invited_world"
    by (simp add: empty_world_def invited_world_def)
  have m: "send_failed ''a@x.com'' ''Connection refused''
             = ''Error sending invite to a@x.com: Connection refused''"
    by (simp add: send_failed_def)
  from failed_send_keeps_token[OF h1 h2 h3 h4 h5, of "[]" "[]" "''great''"] v
  show ?thesis by (simp add: e w m)
qed

text \<open>
  C10. \<open>is_valid_uuid\<close> passes \<open>version=4\<close> to \<open>uuid.UUID\<close>, which does not compare it with
  the text: every string that \<open>uuid.UUID\<close> reads without a version is accepted, and so is
  the canonical text of every 128-bit number, whatever its version bits. For such a
  string \<open>submit_feedback\<close> does not answer with the format error; it goes on to the
  lookup, and answers 404 when no row has this \<open>id\<close>.
\<close>

theorem any_version_is_accepted:
  "(UUID (JStr s) None = Inr u \<longrightarrow>
      is_valid_uuid (JStr s) = Inr True
      \<and> fst (submit_feedback e (JObj [(''uuid'', JStr s), (''feedback'', fb)]) w)
          \<noteq> Inr (Msg ''Invalid UUID format.'', 400)
      \<and> (first_by_id (Feedback w) s = None \<longrightarrow>
           submit_feedback e (JObj [(''uuid'', JStr s), (''feedback'', fb)]) w
             = (Inr (Msg (not_found s), 404), w)))
   \<and> is_valid_uuid (JStr (str_of_uuid i)) = Inr True"
proof (intro conjI impI)
  assume a: "UUID (JStr s) None = Inr u"
  then show v: "is_valid_uuid (JStr s) = Inr True"
    by (rule UUID_version_irrelevant)
  show "fst (submit_feedback e (JObj [(''uuid'', JStr s), (''feedback'', fb)]) w)
          \<noteq> Inr (Msg ''Invalid UUID format.'', 400)"
    by (simp add: submit_feedback_obj v split: option.splits sum.splits)
  assume "first_by_id (Feedback w) s = None"
  then show "submit_feedback e (JObj [(''uuid'', JStr s), (''feedback'', fb)]) w
             = (Inr (Msg (not_found s), 404), w)"
    by (simp add: submit_feedback_obj v)
next
  show "is_valid_uuid (JStr (str_of_uuid i)) = Inr True"
    by (rule is_valid_uuid_str_of_uuid)
qed

theorem any_version_is_accepted_witness:
  "UUID (JStr ''c232ab00-9414-11ec-b3c8-9e6bdeced846'') None
     = Inr 258133314363070689776975540939270314054
   \<and> drop_bit 76 (258133314363070689776975540939270314054 :: int) AND 15 = 1
   \<and> is_valid_uuid (JStr ''c232ab00-9414-11ec-b3c8-9e6bdeced846'') = Inr True
   \<and> submit_feedback sample_env
       (JObj [(''uuid'', JStr ''c232ab00-9414-11ec-b3c8-9e6bdeced846''),
              (''feedback'', JStr ''great'')]) invited_world
       = (Inr (Msg (not_found ''c232ab00-9414-11ec-b3c8-9e6bdeced846''), 404), invited_world)"
proof -
  let ?v1 = "''c232ab00-9414-11ec-b3c8-9e6bdeced846''"
  have h1: "UUID (JStr ?v1) None = Inr 258133314363070689776975540939270314054"
    by code_simp
  have h2: "first_by_id (Feedback invited_world) ?v1 = None"
    by code_simp
  have h3: "drop_bit 76 (258133314363070689776975540939270314054 :: int) AND 15 = 1"
    by code_simp
  from any_version_is_accepted[of ?v1 258133314363070689776975540939270314054 sample_env
         "JStr ''great''" invited_world] h1 h2 h3
  show ?thesis by simp
qed

subsection \<open>What the handlers do to the tables\<close>

lemma snd_send_invite:
  "snd (send_invite e data w) = w
   \<or> (\<exists>xs. snd (send_invite e data w) = snd (for_emails e xs [] [] w))"
proof (cases "\<exists>xs. list_all isinstance_str xs \<and> py_bool (JArr xs) \<and>
    (\<exists>emails. py_getitem data ''emails'' = Inr emails \<and> py_bool emails
       \<and> py_iter emails = Inr xs)")
  case True
  then obtain xs emails where
    "list_all isinstance_str xs" "py_getitem data ''emails'' = Inr emails"
    "py_bool emails" "py_iter emails = Inr xs"
    by blast
  then have "snd (send_invite e data w) = snd (for_emails e (the_strs xs) [] [] w)"
    by (simp add: send_invite_def py_getitem_py_in split: prod.splits sum.splits)
  then show ?thesis by blast
next
  case False
  then have "snd (send_invite e data w) = w"
    by (auto simp: send_invite_def split: sum.splits bool.splits prod.splits) 
  then show ?thesis by blast
qed

lemma send_invite_record_ids: "record_ids (snd (send_invite e data w)) = record_ids w"
  using snd_send_invite[of e data w]
  by (auto simp: record_ids_def for_emails_UserFeedback)

lemma send_invite_redeemed_ids: "redeemed_ids (snd (send_invite e data w)) = redeemed_ids w"
proof -
  from snd_send_invite[of e data w] show ?thesis
  proof (elim disjE exE)
    assume "snd (send_invite e data w) = w"
    then show ?thesis by simp
  next
    fix xs
    assume "snd (send_invite e data w) = snd (for_emails e xs [] [] w)"
    then show ?thesis
      unfolding redeemed_ids_def by (simp only: for_emails_submitted)
  qed
qed

lemma submit_feedback_state:
  assumes "submit_feedback e data w = (r, w')"
  shows "(r \<noteq> Inr (Msg ''Feedback submitted successfully!'', 200) \<and> w' = w)
       \<or> (r = Inr (Msg ''Feedback submitted successfully!'', 200)
          \<and> (\<exists>t row fb. py_getitem data ''uuid'' = Inr (JStr t)
                \<and> first_by_id (Feedback w) t = Some row
                \<and> t \<notin> set (map uf_id (UserFeedback w))
                \<and> w' = w\<lparr>UserFeedback := UserFeedback w
                            @ [\<lparr>uf_id = t, uf_email = fb_email row, uf_feedback = fb\<rparr>],
                          Feedback := mark_submitted t (Feedback w)\<rparr>))"
  using assms
  by (auto simp: submit_feedback_def
           split: sum.splits bool.splits json.splits option.splits if_splits
           dest!: commit_user_feedback_Inr)

lemma first_by_id_Some_id: "first_by_id rows t = Some row \<Longrightarrow> t \<in> set (map fb_id rows)"
  by (metis first_by_id_None option.distinct(1))

lemma redeemed_mark_submitted:
  "set (map fb_id (filter submitted (mark_submitted t rows)))
     = set (map fb_id (filter submitted rows)) \<union> (if t \<in> set (map fb_id rows) then {t} else {})"
  by (induction rows) (auto simp: mark_submitted_def)

text \<open>
  C2. In every state reached from the empty tables by calls of \<open>send_invite\<close> and
  \<open>submit_feedback\<close>, an identifier has a row in \<open>UserFeedback\<close> exactly when the row of
  \<open>Feedback\<close> with this identifier has its flag set. A call of \<open>submit_feedback\<close> that is
  not acknowledged leaves the state as it was; an acknowledged call adds the identifier
  to both sets in its one commit, and the identifier was in neither before.
\<close>

theorem record_iff_redeemed:
  assumes "reachable e w"
  shows "record_ids w = redeemed_ids w
       \<and> (fst (submit_feedback e data w) \<noteq> Inr (Msg ''Feedback submitted successfully!'', 200)
            \<longrightarrow> snd (submit_feedback e data w) = w)
       \<and> (fst (submit_feedback e data w) = Inr (Msg ''Feedback submitted successfully!'', 200)
            \<longrightarrow> (\<exists>t. py_getitem data ''uuid'' = Inr (JStr t)
                   \<and> t \<notin> record_ids w \<and> t \<notin> redeemed_ids w
                   \<and> record_ids (snd (submit_feedback e data w)) = insert t (record_ids w)
                   \<and> redeemed_ids (snd (submit_feedback e data w)) = insert t (redeemed_ids w)))"
proof -
  have step: "(fst (submit_feedback e d v) \<noteq> Inr (Msg ''Feedback submitted successfully!'', 200)
                 \<longrightarrow> snd (submit_feedback e d v) = v)
            \<and> (fst (submit_feedback e d v) = Inr (Msg ''Feedback submitted successfully!'', 200)
                 \<longrightarrow> (\<exists>t. py_getitem d ''uuid'' = Inr (JStr t)
                        \<and> t \<notin> record_ids v
                        \<and> record_ids (snd (submit_feedback e d v)) = insert t (record_ids v)
                        \<and> redeemed_ids (snd (submit_feedback e d v)) = insert t (redeemed_ids v)))"
    for d v
  proof -
    obtain r v' where rv: "submit_feedback e d v = (r, v')"
      by (cases "submit_feedback e d v")
    from submit_feedback_state[OF rv] show ?thesis
    proof
      assume "r \<noteq> Inr (Msg ''Feedback submitted successfully!'', 200) \<and> v' = v"
      then show ?thesis by (simp add: rv)
    next
      assume "r = Inr (Msg ''Feedback submitted successfully!'', 200)
          \<and> (\<exists>t row fb. py_getitem d ''uuid'' = Inr (JStr t)
                \<and> first_by_id (Feedback v) t = Some row
                \<and> t \<notin> set (map uf_id (UserFeedback v))
                \<and> v' = v\<lparr>UserFeedback := UserFeedback v
                            @ [\<lparr>uf_id = t, uf_email = fb_email row, uf_feedback = fb\<rparr>],
                          Feedback := mark_submitted t (Feedback v)\<rparr>)"
      then obtain t row fb where
        r: "r = Inr (Msg ''Feedback submitted successfully!'', 200)" and
        t: "py_getitem d ''uuid'' = Inr (JStr t)" and
        row: "first_by_id (Feedback v) t = Some row" and
        new: "t \<notin> set (map uf_id (UserFeedback v))" and
        v': "v' = v\<lparr>UserFeedback := UserFeedback v
                            @ [\<lparr>uf_id = t, uf_email = fb_email row, uf_feedback = fb\<rparr>],
                    Feedback := mark_submitted t (Feedback v)\<rparr>"
        by blast
      have mem: "t \<in> set (map fb_id (Feedback v))"
        using row by (rule first_by_id_Some_id)
      have "redeemed_ids v' = set (map fb_id (filter submitted (mark_submitted t (Feedback v))))"
        by (simp add: redeemed_ids_def v')
      also have "\<dots> = set (map fb_id (filter submitted (Feedback v))) \<union> {t}"
        using mem by (simp only: redeemed_mark_submitted if_True)
      finally have red: "redeemed_ids v' = insert t (redeemed_ids v)"
        by (simp add: redeemed_ids_def)
      have rec: "record_ids v' = insert t (record_ids v)"
        by (simp add: record_ids_def v')
      from new have "t \<notin> record_ids v"
        by (simp add: record_ids_def)
      with t red rec show ?thesis
        by (auto simp: rv r)
    qed
  qed
  from assms have inv: "record_ids w = redeemed_ids w"
  proof (induction rule: reachable.induct)
    case init
    show ?case by (simp add: record_ids_def redeemed_ids_def empty_world_def)
  next
    case (invite w data)
    then show ?case by (simp add: send_invite_record_ids send_invite_redeemed_ids)
  next
    case (submit w data)
    show ?case
    proof (cases "fst (submit_feedback e data w) = Inr (Msg ''Feedback submitted successfully!'', 200)")
      case True
      with step[of data w] submit.IH show ?thesis by auto
    next
      case False
      with step[of data w] submit.IH show ?thesis by simp
    qed
  qed
  from inv step[of data w] show ?thesis by auto
qed

theorem record_iff_redeemed_witness:
  "record_ids invited_world = redeemed_ids invited_world
   \<and> record_ids redeemed_world
       = insert ''00000000-0000-4000-8000-000000000000'' (record_ids invited_world)
   \<and> redeemed_ids redeemed_world
       = insert ''00000000-0000-4000-8000-000000000000'' (redeemed_ids invited_world)
   \<and> snd (submit_feedback sample_env
       (JObj [(''uuid'', JStr ''00000000-0000-4000-8000-000000000000''),
              (''feedback'', JStr ''again'')]) redeemed_world) = redeemed_world"
proof -
  let ?t = "''00000000-0000-4000-8000-000000000000''"
  let ?d1 = "JObj [(''uuid'', JStr ?t), (''feedback'', JStr ''great'')]"
  let ?d2 = "JObj [(''uuid'', JStr ?t), (''feedback'', JStr ''again'')]"
  have s1: "send_invite sample_env (invite_request [''a@x.com'']) empty_world
              = (Inr (Report [sent_ok ''a@x.com''] [], 200), invited_world)"
    by code_simp
  have s2: "submit_feedback sample_env ?d1 invited_world
              = (Inr (Msg ''Feedback submitted successfully!'', 200), redeemed_world)"
    by code_simp
  have s3: "fst (submit_feedback sample_env ?d2 redeemed_world)
              \<noteq> Inr (Msg ''Feedback submitted successfully!'', 200)"
    by code_simp
  have "reachable sample_env (snd (send_invite sample_env (invite_request [''a@x.com'']) empty_world))"
    by (rule reachable.invite) (rule reachable.init)
  then have r1: "reachable sample_env invited_world"
    by (simp add: s1)
  then have "reachable sample_env (snd (submit_feedback sample_env ?d1 invited_world))"
    by (rule reachable.submit)
  then have r2: "reachable sample_env redeemed_world"
    by (simp add: s2)
  from record_iff_redeemed[OF r1, of ?d1] s2
  have a: "record_ids invited_world = redeemed_ids invited_world
     \<and> record_ids redeemed_world = insert ?t (record_ids invited_world)
     \<and> redeemed_ids redeemed_world = insert ?t (redeemed_ids invited_world)"
    by auto
  from record_iff_redeemed[OF r2, of ?d2] s3
  have b: "snd (submit_feedback sample_env ?d2 redeemed_world) = redeemed_world"
    by blast
  from a b show ?thesis by blast
qed

subsection \<open>One token for an address, one row for an identifier\<close>

text \<open>
  The loop only stores a row for an address that has none, and the primary key refuses
  an identifier that has a row; \<open>submit_feedback\<close> changes flags only. So the addresses
  and the identifiers of \<open>Feedback\<close> are distinct in every reachable state.
\<close>

lemma first_by_email_None_set:
  "first_by_email rows m = None \<longleftrightarrow> m \<notin> set (map fb_email rows)"
  by (auto simp: first_by_email_def find_None_iff)

lemma for_emails_distinct:
  "distinct (map fb_email (Feedback w)) \<and> distinct (map fb_id (Feedback w)) \<Longrightarrow>
   distinct (map fb_email (Feedback (snd (for_emails e xs s er w))))
   \<and> distinct (map fb_id (Feedback (snd (for_emails e xs s er w))))"
proof (induction xs arbitrary: s er w)
  case Nil
  then show ?case by simp
next
  case (Cons email rest)
  show ?case
  proof (cases "first_by_email (Feedback w) email")
    case (Some r)
    then show ?thesis using Cons.prems by (simp add: Cons.IH)
  next
    case None
    let ?tid = "str_of_uuid (uuid4 (urandom e (drawn w)))"
    show ?thesis
    proof (cases "?tid \<in> set (map fb_id (Feedback w))")
      case True
      with None show ?thesis using Cons.prems
        by (simp add: for_emails_collision del: for_emails.simps)
    next
      case False
      let ?w2 = "w\<lparr>drawn := Suc (drawn w),
                   Feedback := Feedback w
                     @ [\<lparr>fb_id = ?tid, fb_email = email, submitted = False\<rparr>]\<rparr>"
      have "email \<notin> set (map fb_email (Feedback w))"
        using None by (simp add: first_by_email_None_set)
      with False Cons.prems
      have d: "distinct (map fb_email (Feedback ?w2)) \<and> distinct (map fb_id (Feedback ?w2))"
        by simp
      show ?thesis
        using Cons.IH[OF d]
        by (simp add: for_emails_new[OF None refl False] del: for_emails.simps
                 split: option.splits)
    qed
  qed
qed

lemma mark_submitted_columns:
  "map fb_email (mark_submitted t rows) = map fb_email rows"
  "map fb_id (mark_submitted t rows) = map fb_id rows"
  by (induction rows) (simp_all add: mark_submitted_def)

lemma reachable_distinct:
  assumes "reachable e w"
  shows "distinct (map fb_email (Feedback w)) \<and> distinct (map fb_id (Feedback w))"
  using assms
proof (induction rule: reachable.induct)
  case init
  show ?case by (simp add: empty_world_def)
next
  case (invite w data)
  from snd_send_invite[of e data w] show ?case
  proof (elim disjE exE)
    assume "snd (send_invite e data w) = w"
    with invite.IH show ?thesis by simp
  next
    fix xs
    assume "snd (send_invite e data w) = snd (for_emails e xs [] [] w)"
    with for_emails_distinct[OF invite.IH] show ?thesis by simp
  qed
next
  case (submit w data)
  obtain r w' where rw: "submit_feedback e data w = (r, w')"
    by (cases "submit_feedback e data w")
  from submit_feedback_state[OF rw] submit.IH show ?case
    by (auto simp: rw mark_submitted_columns)
qed

lemma reachable_one_token_per_email:
  assumes "reachable e w"
  shows "length (filter (\<lambda>r. fb_email r = email) (Feedback w)) \<le> 1"
proof -
  from reachable_distinct[OF assms] have d: "distinct (map fb_email (Feedback w))"
    by simp
  have "distinct (map fb_email rows) \<Longrightarrow> length (filter (\<lambda>r. fb_email r = email) rows) \<le> 1"
    for rows :: "feedback_row list"
    by (induction rows) (auto simp: filter_empty_conv intro: rev_image_eqI)
  from this[OF d] show ?thesis .
qed

end
